theory Spec2Isabelle
  imports Complex_Main "HOL-Library.Word"
begin

unbundle bit_operations_syntax

section \<open>The TMP2 temperature sensor driver (python/pyxi/pmods/tmp2.py)\<close>

subsection \<open>Data model\<close>

text \<open>
  The two constants of \<open>pmod_const\<close> that the driver uses. The module \<open>pmod_const\<close> is
  not among the sources, so the constants are parameters of every operation.
\<close>

record pmod_const =
  MAILBOX_OFFSET :: int
  MAILBOX_PY2IOP_CMD_OFFSET :: int

text \<open>The exceptions the driver can raise.\<close>

datatype exn = ValueError | AttributeError | AllocationError

text \<open>
  What the driver does to the outside world, in order: a word written to or read from the
  memory-mapped region (byte offset, value), and the lines printed by \<open>print_log\<close>
  (the header \<open>T\tData\<close>, and a row holding the sequence index and the decoded value).
\<close>

datatype event =
    MmioWrite int int
  | MmioRead int "32 word"
  | PrintHeader
  | PrintRow nat rat

text \<open>
  The driver object together with the world it acts on. \<open>log_ms\<close> is the attribute of
  the source; \<open>last_value\<close> is its attribute \<open>self.value\<close>, which exists only once
  \<open>read\<close> has assigned it. The co-processor is an arbitrary environment: \<open>inputs k\<close> is
  the word that the \<open>k\<close>-th read of the region returns, \<open>nreads\<close> counts the reads done
  so far, and \<open>trace\<close> records every event.
\<close>

record tmp2 =
  log_ms :: int
  last_value :: "32 word option"
  inputs :: "nat \<Rightarrow> 32 word"
  nreads :: nat
  trace :: "event list"

subsection \<open>The memory-mapped transport\<close>

text \<open>
  Modelled from the spec: the class \<open>MMIO\<close> of \<open>pyxi\<close> is not among the sources. Section
  4.1 of the specification gives its contract: \<open>writeWord(offset, value)\<close> and
  \<open>readWord(offset) -> uint32\<close>, each call a direct access to the region, in program
  order. Neither is specified to fail.
\<close>

definition mmio_write :: "int \<Rightarrow> int \<Rightarrow> tmp2 \<Rightarrow> tmp2" where
  "mmio_write off v s = s\<lparr>trace := trace s @ [MmioWrite off v]\<rparr>"

definition mmio_read :: "int \<Rightarrow> tmp2 \<Rightarrow> 32 word \<times> tmp2" where
  "mmio_read off s =
     (inputs s (nreads s),
      s\<lparr>nreads := Suc (nreads s),
        trace := trace s @ [MmioRead off (inputs s (nreads s))]\<rparr>)"

definition stdout_print :: "event \<Rightarrow> tmp2 \<Rightarrow> tmp2" where
  "stdout_print e s = s\<lparr>trace := trace s @ [e]\<rparr>"

subsection \<open>Register-to-float decoding (\<open>_reg2float\<close>)\<close>

text \<open>
  The locals of \<open>_reg2float\<close>, one definition each. Python's \<open>>>\<close> binds tighter than
  \<open>&\<close>, so \<open>sign\<close> is \<open>((reg & 0x80000000) >> 31) & 0x01\<close>. The register is a word
  read from the region, so it is a 32-bit unsigned value; \<open>/\<close> is Python 3's true
  division.
\<close>

definition reg_sign :: "32 word \<Rightarrow> int" where
  "reg_sign reg = uint (drop_bit 31 (reg AND 0x80000000) AND 0x01)"

definition reg_exp :: "32 word \<Rightarrow> int" where
  "reg_exp reg = uint (drop_bit 23 (reg AND 0x7f800000)) - 127"

definition reg_man :: "32 word \<Rightarrow> rat" where
  "reg_man reg =
     (if reg_exp reg = 0 then of_int (uint (reg AND 0x007fffff)) / 2 ^ 23
      else 1 + of_int (uint (reg AND 0x007fffff)) / 2 ^ 23)"

text \<open>
  \<open>pow(2, exp)\<close>: an integer for a non-negative exponent, the float \<open>1 / 2 ** -exp\<close>
  for a negative one. With \<open>-127 \<le> exp \<le> 128\<close> and a significand of at most 24 bits,
  every float operation of \<open>_reg2float\<close> before the formatting is exact in double
  precision, so the value of \<open>result\<close> is the rational number computed here.
\<close>

definition py_pow2 :: "int \<Rightarrow> rat" where
  "py_pow2 e = (if 0 \<le> e then 2 ^ nat e else 1 / 2 ^ nat (- e))"

definition reg_result :: "32 word \<Rightarrow> rat" where
  "reg_result reg = py_pow2 (reg_exp reg) * reg_man reg * of_int (reg_sign reg * (- 2) + 1)"

text \<open>
  \<open>float("{0:.1f}".format(x))\<close>. Python formats the exact value of the float, correctly
  rounded to one decimal place, a tie going to the even digit
  (\<open>"{0:.1f}".format(0.25)\<close> is \<open>0.2\<close>, of \<open>0.75\<close> it is \<open>0.8\<close>). The result of the
  model is the decimal number that the string denotes; the source returns the double
  nearest to it, and \<open>-0.0\<close> where the string is \<open>-0.0\<close>, which Python compares equal
  to \<open>0.0\<close>.
\<close>

definition format_1f :: "rat \<Rightarrow> rat" where
  "format_1f x =
     (let y = 10 * x; n = \<lfloor>y\<rfloor>; d = y - of_int n
      in of_int (if d < 1 / 2 then n
                 else if 1 / 2 < d then n + 1
                 else if even n then n else n + 1) / 10)"

definition reg2float :: "32 word \<Rightarrow> rat" where
  "reg2float reg = (if reg = 0 then 0 else format_1f (reg_result reg))"

text \<open>
  Attribute lookup on a \<open>TMP2\<close> instance, for the names the driver calls with a register
  value. The class defines the decoder under the name \<open>_reg2float\<close> and defines no
  \<open>__getattr__\<close>; looking up any other such name raises \<open>AttributeError\<close>.
\<close>

definition getattr_TMP2 :: "string \<Rightarrow> exn + (32 word \<Rightarrow> rat)" where
  "getattr_TMP2 name = (if name = ''_reg2float'' then Inr reg2float else Inl AttributeError)"

subsection \<open>Operations\<close>

text \<open>
  \<open>__init__\<close>. Modelled from the spec: \<open>_iop.request_iop\<close> is not among the sources;
  by section 4.2 it may fail with an allocation error, so its outcome \<open>req\<close> is a
  parameter. The environment \<open>env\<close> is the co-processor the new driver will talk to.
\<close>

definition TMP2_init :: "exn + unit \<Rightarrow> (nat \<Rightarrow> 32 word) \<Rightarrow> exn + tmp2" where
  "TMP2_init req env =
     (case req of
        Inl e \<Rightarrow> Inl e
      | Inr _ \<Rightarrow> Inr \<lparr>log_ms = 0, last_value = None, inputs = env, nreads = 0, trace = []\<rparr>)"

text \<open>
  The busy-wait of \<open>read\<close>: \<open>while mmio.read(cmd) == 3: pass\<close>. The loop has no bound,
  so it is a partial function: \<open>None\<close> is the call that never returns.
\<close>

partial_function (option) poll_cmd :: "pmod_const \<Rightarrow> tmp2 \<Rightarrow> tmp2 option" where
  "poll_cmd c s =
     (if fst (mmio_read (MAILBOX_OFFSET c + MAILBOX_PY2IOP_CMD_OFFSET c) s) = 3
      then poll_cmd c (snd (mmio_read (MAILBOX_OFFSET c + MAILBOX_PY2IOP_CMD_OFFSET c) s))
      else Some (snd (mmio_read (MAILBOX_OFFSET c + MAILBOX_PY2IOP_CMD_OFFSET c) s)))"

definition read :: "pmod_const \<Rightarrow> tmp2 \<Rightarrow> (rat \<times> tmp2) option" where
  "read c s =
     (case poll_cmd c (mmio_write (MAILBOX_OFFSET c + MAILBOX_PY2IOP_CMD_OFFSET c) 3 s) of
        None \<Rightarrow> None
      | Some s1 \<Rightarrow>
          (let (v, s2) = mmio_read (MAILBOX_OFFSET c) s1;
               s3 = s2\<lparr>last_value := Some v\<rparr>
           in Some (reg2float v, s3)))"

definition set_log_ms :: "pmod_const \<Rightarrow> int \<Rightarrow> tmp2 \<Rightarrow> (exn + unit) \<times> tmp2" where
  "set_log_ms c ms s =
     (if ms < 0 then (Inl ValueError, s)
      else (let s1 = s\<lparr>log_ms := ms\<rparr>
            in (Inr (), mmio_write (MAILBOX_OFFSET c + 4) (log_ms s1) s1)))"

definition start_log :: "pmod_const \<Rightarrow> int \<Rightarrow> tmp2 \<Rightarrow> (exn + unit) \<times> tmp2" where
  "start_log c ms s =
     (case set_log_ms c ms s of
        (Inl e, s1) \<Rightarrow> (Inl e, s1)
      | (Inr _, s1) \<Rightarrow>
          (Inr (), mmio_write (MAILBOX_OFFSET c + MAILBOX_PY2IOP_CMD_OFFSET c) 7 s1))"

definition stop_log :: "pmod_const \<Rightarrow> tmp2 \<Rightarrow> tmp2" where
  "stop_log c s = mmio_write (MAILBOX_OFFSET c + MAILBOX_PY2IOP_CMD_OFFSET c) 1 s"

text \<open>
  The body of the \<open>for x in range(count)\<close> loop of \<open>print_log\<close>, over the remaining
  values of \<open>x\<close>, with the local \<open>current_ptr\<close>. The source calls \<open>self.reg2float\<close>.
\<close>

fun print_rows :: "pmod_const \<Rightarrow> nat list \<Rightarrow> int \<Rightarrow> tmp2 \<Rightarrow> (exn + unit) \<times> tmp2" where
  "print_rows c [] current_ptr s = (Inr (), s)"
| "print_rows c (x # xs) current_ptr s =
     (let (temp, s1) = mmio_read (MAILBOX_OFFSET c + (3 + int x) * 4) s
      in case getattr_TMP2 ''reg2float'' of
           Inl e \<Rightarrow> (Inl e, s1)
         | Inr f \<Rightarrow>
             print_rows c xs (if current_ptr < 999 then current_ptr + 1 else 0)
               (stdout_print (PrintRow x (f temp)) s1))"

definition print_log :: "pmod_const \<Rightarrow> tmp2 \<Rightarrow> (exn + unit) \<times> tmp2" where
  "print_log c s =
     (let s1 = stop_log c s;
          (w, s2) = mmio_read (MAILBOX_OFFSET c + 8) s1;
          end_ptr = uint w;
          (current_ptr, end_ptr1, count) =
             (if end_ptr \<ge> 1000 then (end_ptr - 999, end_ptr - 1000, 1000)
              else (0, end_ptr, end_ptr))
      in print_rows c [0..<nat count] current_ptr (stdout_print PrintHeader s2))"

subsection \<open>Notions used to state the properties\<close>

text \<open>
  The fields of the register as the specification names them: \<open>bits[30:23]\<close>, the biased
  exponent, and \<open>bits[22:0]\<close>, the mantissa, both read off the unsigned value.
\<close>

definition bits_30_23 :: "32 word \<Rightarrow> int" where
  "bits_30_23 reg = (uint reg div 2 ^ 23) mod 2 ^ 8"

definition bits_22_0 :: "32 word \<Rightarrow> int" where
  "bits_22_0 reg = uint reg mod 2 ^ 23"

text \<open>
  The rounding in the specification's words (section 4.6): one decimal place, a tie going
  away from zero. It is compared with \<open>format_1f\<close>, the rounding of the source.
\<close>

definition round_half_away_1f :: "rat \<Rightarrow> rat" where
  "round_half_away_1f x = sgn x * of_int \<lfloor>10 * \<bar>x\<bar> + 1 / 2\<rfloor> / 10"

text \<open>
  The decoding in the specification's words (section 4.6): the product
  \<open>2^exponent * significand * (-1 if the sign bit is set else +1)\<close>, with the exponent
  \<open>bits[30:23] - 127\<close> and the significand chosen by the biased exponent field as the
  design notes settle it (no leading 1 when the field equals 127), and the result \<open>0.0\<close>
  for the input 0, otherwise the product rounded to one decimal place, a tie going away
  from zero. It is compared with \<open>reg2float\<close>, the decoding of the source.
\<close>

definition spec_product :: "32 word \<Rightarrow> rat" where
  "spec_product reg =
     2 powi (bits_30_23 reg - 127)
     * (if bits_30_23 reg = 127 then of_int (bits_22_0 reg) / 2 ^ 23
        else 1 + of_int (bits_22_0 reg) / 2 ^ 23)
     * (if bit reg 31 then - 1 else 1)"

definition spec_decode :: "32 word \<Rightarrow> rat" where
  "spec_decode reg = (if reg = 0 then 0 else round_half_away_1f (spec_product reg))"

text \<open>The byte offsets of the reads in a trace, in order.\<close>

fun read_offsets :: "event list \<Rightarrow> int list" where
  "read_offsets [] = []"
| "read_offsets (MmioRead off v # es) = off # read_offsets es"
| "read_offsets (e # es) = read_offsets es"

text \<open>The rows printed in a trace, in order.\<close>

fun printed_rows :: "event list \<Rightarrow> (nat \<times> rat) list" where
  "printed_rows [] = []"
| "printed_rows (PrintRow x v # es) = (x, v) # printed_rows es"
| "printed_rows (e # es) = printed_rows es"

text \<open>
  The log entries that the dump reads in the specification's words (section 4.5), for the
  end pointer \<open>p\<close>: 1000 entries from the physical slot \<open>p - 1000\<close>, slots advancing
  modulo 1000, when \<open>p \<ge> 1000\<close>; otherwise \<open>p\<close> entries from slot 0. A slot \<open>i\<close> is the
  word at byte offset \<open>12 + 4 * i\<close> of the mailbox.
\<close>

definition spec_log_slots :: "int \<Rightarrow> int list" where
  "spec_log_slots p =
     (if p \<ge> 1000 then map (\<lambda>x. (p - 1000 + int x) mod 1000) [0..<1000]
      else map int [0..<nat p])"

definition spec_log_offsets :: "pmod_const \<Rightarrow> int \<Rightarrow> int list" where
  "spec_log_offsets c p = map (\<lambda>i. MAILBOX_OFFSET c + 12 + 4 * i) (spec_log_slots p)"

subsection \<open>Concrete inputs\<close>

text \<open>Example values of the two constants, and a driver as \<open>__init__\<close> leaves it.\<close>

definition c0 :: pmod_const where
  "c0 = \<lparr>MAILBOX_OFFSET = 0x7000, MAILBOX_PY2IOP_CMD_OFFSET = 0xffc\<rparr>"

definition fresh :: "(nat \<Rightarrow> 32 word) \<Rightarrow> tmp2" where
  "fresh env = \<lparr>log_ms = 0, last_value = None, inputs = env, nreads = 0, trace = []\<rparr>"

text \<open>A co-processor whose every read returns \<open>w\<close>.\<close>

definition env_const :: "32 word \<Rightarrow> nat \<Rightarrow> 32 word" where
  "env_const w k = w"

text \<open>A co-processor whose first \<open>n\<close> reads return 3 and whose later reads return \<open>w\<close>.\<close>

definition env_busy :: "nat \<Rightarrow> 32 word \<Rightarrow> nat \<Rightarrow> 32 word" where
  "env_busy n w k = (if k < n then 3 else w)"

section \<open>Properties of the decoding\<close>

subsection \<open>Rounding to one decimal place\<close>

lemma format_1f_char:
  "\<exists>k :: int. format_1f x = of_int k / 10 \<and> \<bar>of_int k - 10 * x\<bar> \<le> 1 / 2
      \<and> (\<bar>of_int k - 10 * x\<bar> = 1 / 2 \<longrightarrow> even k)"
proof -
  define n where "n = \<lfloor>10 * x\<rfloor>"
  define d where "d = 10 * x - of_int n"
  have d0: "0 \<le> d" and d1: "d < 1"
    unfolding d_def n_def by linarith+
  have y: "10 * x = of_int n + d" by (simp add: d_def)
  define k where "k = (if d < 1 / 2 then n else if 1 / 2 < d then n + 1
                 else if even n then n else n + 1)"
  have f: "format_1f x = of_int k / 10"
    by (simp only: format_1f_def Let_def k_def d_def n_def)
  have c: "\<bar>of_int k - 10 * x\<bar> \<le> 1 / 2"
    using d0 d1 by (simp add: k_def y)
  have e: "even k" if "\<bar>of_int k - 10 * x\<bar> = 1 / 2"
    using that d0 d1 by (simp add: k_def y split: if_splits)
  from f c e show ?thesis by blast
qed

text \<open>The three properties determine the result.\<close>

lemma format_1f_unique:
  assumes "\<bar>of_int k - 10 * x\<bar> \<le> 1 / 2"
    and "\<bar>of_int k - 10 * x\<bar> = 1 / 2 \<longrightarrow> even k"
  shows "format_1f x = of_int k / 10"
proof -
  obtain j :: int where j: "format_1f x = of_int j / 10"
    "\<bar>of_int j - 10 * x\<bar> \<le> 1 / 2" "\<bar>of_int j - 10 * x\<bar> = 1 / 2 \<longrightarrow> even j"
    using format_1f_char [of x] by blast
  have "\<bar>(of_int k :: rat) - of_int j\<bar> \<le> 1" using assms(1) j(2) by linarith
  then have "\<bar>of_int (k - j) :: rat\<bar> \<le> of_int 1" by simp
  then have kj: "\<bar>k - j\<bar> \<le> 1"
    unfolding of_int_abs[symmetric] of_int_le_iff .
  have "k = j"
  proof (rule ccontr)
    assume ne: "k \<noteq> j"
    with kj have "k = j + 1 \<or> j = k + 1" by linarith
    then show False
    proof
      assume k: "k = j + 1"
      then have "\<bar>of_int k - 10 * x\<bar> = 1 / 2" "\<bar>of_int j - 10 * x\<bar> = 1 / 2"
        using assms(1) j(2) by (simp_all; linarith)+
      then have "even k" "even j" using assms(2) j(3) by blast+
      with k show False by simp
    next
      assume k: "j = k + 1"
      then have "\<bar>of_int k - 10 * x\<bar> = 1 / 2" "\<bar>of_int j - 10 * x\<bar> = 1 / 2"
        using assms(1) j(2) by (simp_all; linarith)+
      then have "even k" "even j" using assms(2) j(3) by blast+
      with k show False by simp
    qed
  qed
  with j(1) show ?thesis by simp
qed

lemma format_1f_minus: "format_1f (- x) = - format_1f x"
proof -
  obtain j :: int where j: "format_1f x = of_int j / 10"
    "\<bar>of_int j - 10 * x\<bar> \<le> 1 / 2" "\<bar>of_int j - 10 * x\<bar> = 1 / 2 \<longrightarrow> even j"
    using format_1f_char [of x] by blast
  have eq: "\<bar>rat_of_int (- j) - 10 * - x\<bar> = \<bar>of_int j - 10 * x\<bar>" by simp
  have "format_1f (- x) = of_int (- j) / 10"
    by (rule format_1f_unique) (use j eq in simp_all)
  then show ?thesis by (simp add: j(1))
qed

subsection \<open>The masks and shifts read the fields\<close>

lemma mask_consts:
  "(0x7f800000 :: int) = push_bit 23 (mask 8)"
  "(0x007fffff :: int) = mask 23"
  "(0x80000000 :: int) = push_bit 31 1"
  "(255 :: int) = mask 8"
  by (simp_all add: mask_eq_exp_minus_1)

lemma bit_exp_mask: "bit (0x7f800000 :: int) n \<longleftrightarrow> 23 \<le> n \<and> n < 31"
  unfolding mask_consts by (simp only: bit_simps) auto

lemma bit_man_mask: "bit (0x007fffff :: int) n \<longleftrightarrow> n < 23"
  unfolding mask_consts by (simp only: bit_simps) auto

lemma bit_sign_mask: "bit (0x80000000 :: int) n \<longleftrightarrow> n = 31"
  unfolding mask_consts by (simp only: bit_simps) auto

lemma bit_255: "bit (255 :: int) n \<longleftrightarrow> n < 8"
  unfolding mask_consts by (simp only: bit_simps) auto

lemmas bit_masks = bit_exp_mask bit_man_mask bit_sign_mask bit_255

lemma exp_field_word:
  "drop_bit 23 (reg AND 0x7f800000) = take_bit 8 (drop_bit 23 reg)" for reg :: "32 word"
  by (rule bit_word_eqI) (auto simp: bit_simps bit_masks)

lemma reg_exp_field: "reg_exp reg = bits_30_23 reg - 127"
proof -
  have "uint (take_bit 8 (drop_bit 23 reg)) = take_bit 8 (drop_bit 23 (uint reg))"
    by (simp add: unsigned_take_bit_eq unsigned_drop_bit_eq bintr_uint)
  also have "\<dots> = (uint reg div 2 ^ 23) mod 2 ^ 8"
    by (simp only: take_bit_eq_mod drop_bit_eq_div)
  finally show ?thesis by (simp only: reg_exp_def bits_30_23_def exp_field_word)
qed

lemma man_field_word: "reg AND 0x007fffff = take_bit 23 reg" for reg :: "32 word"
  by (rule bit_word_eqI) (auto simp: bit_simps bit_masks)

lemma man_field: "uint (reg AND 0x007fffff) = bits_22_0 reg"
proof -
  have "uint (take_bit 23 reg) = take_bit 23 (uint reg)"
    by (rule unsigned_take_bit_eq)
  also have "\<dots> = uint reg mod 2 ^ 23" by (rule take_bit_eq_mod)
  finally show ?thesis by (simp only: man_field_word bits_22_0_def)
qed

lemma sign_field_word:
  "drop_bit 31 (reg AND 0x80000000) AND 0x01 = (if bit reg 31 then 1 else 0)"
  for reg :: "32 word"
  by (rule bit_word_eqI) (auto simp: bit_simps bit_masks intro!: gr0I)

lemma reg_sign_bit: "reg_sign reg = (if bit reg 31 then 1 else 0)"
  unfolding reg_sign_def sign_field_word by simp

text \<open>Setting the sign bit changes neither the exponent nor the mantissa.\<close>

lemma or_sign_exp: "(b OR 0x80000000) AND 0x7f800000 = b AND 0x7f800000" for b :: "32 word"
  by (rule bit_word_eqI) (auto simp: bit_simps bit_masks)

lemma or_sign_man: "(b OR 0x80000000) AND 0x007fffff = b AND 0x007fffff" for b :: "32 word"
  by (rule bit_word_eqI) (auto simp: bit_simps bit_masks)

lemma or_sign_bit: "bit (b OR 0x80000000) 31" for b :: "32 word"
  by (simp add: bit_simps bit_masks)

lemma or_sign_nonzero: "b OR 0x80000000 \<noteq> 0" for b :: "32 word"
proof
  assume "b OR 0x80000000 = 0"
  then have "bit (0 :: 32 word) 31" using or_sign_bit [of b] by simp
  then show False by simp
qed

subsection \<open>The decoded value\<close>

lemma reg2float_sign_only: "reg2float 0x80000000 = 0"
  by code_simp

lemma reg_result_zero: "reg_result 0 = 1 / 2 ^ 127"
  by (simp add: reg_result_def reg_exp_def reg_man_def reg_sign_def py_pow2_def)

lemma reg_result_or_sign:
  assumes "\<not> bit b 31"
  shows "reg_result (b OR 0x80000000) = - reg_result b"
proof -
  have e: "reg_exp (b OR 0x80000000) = reg_exp b"
    by (simp only: reg_exp_def or_sign_exp)
  have m: "reg_man (b OR 0x80000000) = reg_man b"
    by (simp only: reg_man_def e or_sign_man)
  have s: "reg_sign (b OR 0x80000000) = 1" "reg_sign b = 0"
    using assms by (simp_all add: reg_sign_bit or_sign_bit)
  show ?thesis by (simp add: reg_result_def e m s)
qed

text \<open>
  Claim C3, as amended. For every 32-bit input the value returned by \<open>_reg2float\<close> is
  \<open>2^exponent * significand * (-1 if the sign bit is set else +1)\<close> rounded to one
  decimal digit with a tie going to the even digit: the result is a whole number \<open>k\<close> of
  tenths, it differs from the product by at most \<open>0.05\<close>, and where it differs by exactly
  \<open>0.05\<close> the number \<open>k\<close> is even. These three properties determine the result
  (\<open>format_1f_unique\<close>). The claim as stated asks for a tie to go away from zero.
\<close>

theorem reg2float_rounds_half_even:
  "\<exists>k :: int. reg2float reg = of_int k / 10
     \<and> \<bar>reg2float reg - reg_result reg\<bar> \<le> 1 / 20
     \<and> (\<bar>reg2float reg - reg_result reg\<bar> = 1 / 20 \<longrightarrow> even k)"
proof (cases "reg = 0")
  case True
  have "reg2float reg = of_int 0 / 10" "\<bar>reg2float reg - reg_result reg\<bar> < 1 / 20"
    using True by (simp_all add: reg2float_def reg_result_zero)
  then show ?thesis by (intro exI [of _ 0]) simp
next
  case False
  obtain k :: int where k: "format_1f (reg_result reg) = of_int k / 10"
    "\<bar>of_int k - 10 * reg_result reg\<bar> \<le> 1 / 2"
    "\<bar>of_int k - 10 * reg_result reg\<bar> = 1 / 2 \<longrightarrow> even k"
    using format_1f_char [of "reg_result reg"] by blast
  have d: "\<bar>of_int k - 10 * reg_result reg\<bar> = 10 * \<bar>reg2float reg - reg_result reg\<bar>"
    using False by (simp add: reg2float_def k(1) abs_if)
  show ?thesis
    using False k d by (intro exI [of _ k]) (simp add: reg2float_def)
qed

text \<open>
  The register \<open>0x3E800000\<close> (biased exponent 125, mantissa 0) holds \<open>0.25\<close>, a tie
  between \<open>0.2\<close> and \<open>0.3\<close>: the decoding returns \<open>0.2\<close>.
\<close>

theorem reg2float_rounds_half_even_witness:
  "reg_result 0x3E800000 = 1 / 4 \<and> reg2float 0x3E800000 = 1 / 5
   \<and> \<bar>reg2float 0x3E800000 - reg_result 0x3E800000\<bar> = 1 / 20
   \<and> (\<exists>k :: int. reg2float 0x3E800000 = of_int k / 10 \<and> even k)"
proof -
  have r: "reg_result 0x3E800000 = 1 / 4" by code_simp
  have f: "reg2float 0x3E800000 = 1 / 5" by code_simp
  have t: "\<bar>reg2float 0x3E800000 - reg_result 0x3E800000\<bar> = 1 / 20"
    by (simp add: r f)
  from reg2float_rounds_half_even [of "0x3E800000"] t
  have "\<exists>k :: int. reg2float 0x3E800000 = of_int k / 10 \<and> even k" by blast
  with r f t show ?thesis by blast
qed

text \<open>
  Claim C3 as stated fails at that register: rounding \<open>0.25\<close> half away from zero gives
  \<open>0.3\<close>, and \<open>_reg2float\<close> returns \<open>0.2\<close>.
\<close>

theorem reg2float_half_away_counterexample:
  "reg_result 0x3E800000 = 1 / 4 \<and> reg2float 0x3E800000 = 1 / 5
   \<and> round_half_away_1f (reg_result 0x3E800000) = 3 / 10
   \<and> reg2float 0x3E800000 \<noteq> round_half_away_1f (reg_result 0x3E800000)"
  by code_simp

text \<open>
  Claim C4. For every nonzero 32-bit input of \<open>_reg2float\<close>, the debiased exponent is
  \<open>bits[30:23] - 127\<close>; if the biased exponent field equals 127 the significand is
  \<open>bits[22:0] / 2^23\<close>, with no implicit leading 1, and otherwise it is
  \<open>1 + bits[22:0] / 2^23\<close>; this significand is the one the returned value is computed
  from.
\<close>

theorem reg_man_significand:
  assumes "reg \<noteq> 0"
  shows "reg_exp reg = bits_30_23 reg - 127
    \<and> (bits_30_23 reg = 127 \<longrightarrow> reg_man reg = of_int (bits_22_0 reg) / 2 ^ 23)
    \<and> (bits_30_23 reg \<noteq> 127 \<longrightarrow> reg_man reg = 1 + of_int (bits_22_0 reg) / 2 ^ 23)
    \<and> reg2float reg =
        format_1f (py_pow2 (reg_exp reg) * reg_man reg * of_int (reg_sign reg * (- 2) + 1))"
  using assms by (simp add: reg_man_def man_field reg_exp_field reg2float_def reg_result_def)

text \<open>
  \<open>0x3FC00000\<close> has the biased exponent 127 and the mantissa \<open>2^22\<close>: its significand is
  \<open>0.5\<close>. \<open>0x41C80000\<close> has the biased exponent 131: its significand is \<open>1.5625\<close>.
\<close>

theorem reg_man_significand_witness:
  "(0x3FC00000 :: 32 word) \<noteq> 0 \<and> bits_30_23 0x3FC00000 = 127
    \<and> reg_man 0x3FC00000 = of_int (bits_22_0 0x3FC00000) / 2 ^ 23
    \<and> reg_man 0x3FC00000 = 1 / 2
    \<and> (0x41C80000 :: 32 word) \<noteq> 0 \<and> bits_30_23 0x41C80000 \<noteq> 127
    \<and> reg_man 0x41C80000 = 1 + of_int (bits_22_0 0x41C80000) / 2 ^ 23
    \<and> reg_man 0x41C80000 = 25 / 16"
proof -
  have a: "(0x3FC00000 :: 32 word) \<noteq> 0" "bits_30_23 0x3FC00000 = 127"
    "bits_22_0 0x3FC00000 = 2 ^ 22"
    by (simp_all add: bits_30_23_def bits_22_0_def)
  have b: "(0x41C80000 :: 32 word) \<noteq> 0" "bits_30_23 0x41C80000 = 131"
    "bits_22_0 0x41C80000 = 9 * 2 ^ 19"
    by (simp_all add: bits_30_23_def bits_22_0_def)
  show ?thesis
    using reg_man_significand [OF a(1)] reg_man_significand [OF b(1)]
    by (simp add: a b)
qed

text \<open>
  Claim C9. \<open>_reg2float(0)\<close> is \<open>0.0\<close>; for every 32-bit input \<open>b\<close> whose sign bit is
  clear, \<open>_reg2float\<close> of \<open>b\<close> with the sign bit set is the negation of \<open>_reg2float(b)\<close>;
  and the register \<open>0x41C80000\<close> (biased exponent 131, mantissa of \<open>1.5625\<close>), which
  encodes \<open>+25.0\<close>, decodes to \<open>25.0\<close>.
\<close>

theorem reg2float_sign_symmetry:
  "reg2float 0 = 0
   \<and> (\<not> bit b 31 \<longrightarrow> reg2float (b OR 0x80000000) = - reg2float b)
   \<and> reg2float 0x41C80000 = 25"
proof -
  have z: "reg2float 0 = 0" by (simp add: reg2float_def)
  have t: "reg2float 0x41C80000 = 25" by code_simp
  have n: "reg2float (b OR 0x80000000) = - reg2float b" if "\<not> bit b 31"
  proof (cases "b = 0")
    case True
    then show ?thesis by (simp add: reg2float_sign_only z)
  next
    case False
    then show ?thesis
      by (simp add: reg2float_def or_sign_nonzero reg_result_or_sign [OF that] format_1f_minus)
  qed
  from z t n show ?thesis by blast
qed

theorem reg2float_sign_symmetry_witness:
  "\<not> bit (0x41C80000 :: 32 word) 31 \<and> (0x41C80000 :: 32 word) OR 0x80000000 = 0xC1C80000
   \<and> reg2float 0xC1C80000 = - 25"
proof -
  have a: "\<not> bit (0x41C80000 :: 32 word) 31" by simp
  have b: "(0x41C80000 :: 32 word) OR 0x80000000 = 0xC1C80000" by simp
  show ?thesis using reg2float_sign_symmetry [of "0x41C80000"] a b by simp
qed

section \<open>Properties of the logging control\<close>

text \<open>
  Claim C6. For every integer \<open>ms < 0\<close>, \<open>set_log_ms(ms)\<close> raises \<open>ValueError\<close> and
  leaves the driver and the mailbox as they were: \<open>log_ms\<close> is unchanged and no write
  is issued. For every \<open>ms \<ge> 0\<close> it succeeds, stores \<open>ms\<close> in \<open>log_ms\<close> and writes
  \<open>ms\<close> to the log-length cell at mailbox offset \<open>+4\<close>, and does nothing else.
\<close>

theorem set_log_ms_checks_sign:
  "(ms < 0 \<longrightarrow> set_log_ms c ms s = (Inl ValueError, s))
   \<and> (0 \<le> ms \<longrightarrow> set_log_ms c ms s =
         (Inr (), s\<lparr>log_ms := ms, trace := trace s @ [MmioWrite (MAILBOX_OFFSET c + 4) ms]\<rparr>))"
  by (simp add: set_log_ms_def mmio_write_def)

theorem set_log_ms_checks_sign_witness:
  "(- 1 :: int) < 0 \<and> set_log_ms c0 (- 1) (fresh (env_const 0)) = (Inl ValueError, fresh (env_const 0))
   \<and> (0 :: int) \<le> 250
   \<and> log_ms (snd (set_log_ms c0 250 (fresh (env_const 0)))) = 250
   \<and> trace (snd (set_log_ms c0 250 (fresh (env_const 0)))) = [MmioWrite 0x7004 250]"
  using set_log_ms_checks_sign [of "- 1" c0 "fresh (env_const 0)"]
    set_log_ms_checks_sign [of 250 c0 "fresh (env_const 0)"]
  by (simp add: c0_def fresh_def)

text \<open>
  Claim C7. For every \<open>ms \<ge> 0\<close>, \<open>start_log(ms)\<close> issues exactly two mailbox writes,
  in order: \<open>ms\<close> to the log-length cell at offset \<open>+4\<close>, then opcode 7 to the command
  cell. \<open>stop_log()\<close> issues exactly one write, opcode 1 to the command cell. Neither
  reads the mailbox, and so neither polls.
\<close>

theorem start_stop_log_writes:
  "(0 \<le> ms \<longrightarrow> start_log c ms s =
       (Inr (), s\<lparr>log_ms := ms,
                  trace := trace s @ [MmioWrite (MAILBOX_OFFSET c + 4) ms,
                     MmioWrite (MAILBOX_OFFSET c + MAILBOX_PY2IOP_CMD_OFFSET c) 7]\<rparr>))
   \<and> stop_log c s =
       s\<lparr>trace := trace s @ [MmioWrite (MAILBOX_OFFSET c + MAILBOX_PY2IOP_CMD_OFFSET c) 1]\<rparr>"
  by (simp add: start_log_def set_log_ms_def stop_log_def mmio_write_def)

theorem start_stop_log_writes_witness:
  "(0 :: int) \<le> 250
   \<and> trace (snd (start_log c0 250 (fresh (env_const 0)))) = [MmioWrite 0x7004 250, MmioWrite 0x7ffc 7]
   \<and> nreads (snd (start_log c0 250 (fresh (env_const 0)))) = 0
   \<and> trace (stop_log c0 (fresh (env_const 0))) = [MmioWrite 0x7ffc 1]"
  using start_stop_log_writes [of 250 c0 "fresh (env_const 0)"]
  by (simp add: c0_def fresh_def)

text \<open>
  Claim C10. For every integer \<open>ms < 0\<close>, \<open>start_log(ms)\<close> raises \<open>ValueError\<close> before
  any mailbox write: opcode 7 is not written, the log-length cell is not written, and
  \<open>log_ms\<close> is unchanged.
\<close>

theorem start_log_negative_atomic:
  "ms < 0 \<Longrightarrow> start_log c ms s = (Inl ValueError, s)"
  by (simp add: start_log_def set_log_ms_def)

theorem start_log_negative_atomic_witness:
  "(- 1 :: int) < 0 \<and> start_log c0 (- 1) (fresh (env_const 0)) = (Inl ValueError, fresh (env_const 0))"
  using start_log_negative_atomic [of "- 1" c0 "fresh (env_const 0)"] by simp

section \<open>Properties of the log dump\<close>

lemma getattr_reg2float: "getattr_TMP2 ''reg2float'' = Inl AttributeError"
  by (simp add: getattr_TMP2_def)

lemma print_rows_Cons:
  "print_rows c (x # xs) cur s =
     (Inl AttributeError, snd (mmio_read (MAILBOX_OFFSET c + (3 + int x) * 4) s))"
  by (simp add: getattr_reg2float split: prod.split)

lemma upt_nat_pos: "0 < n \<Longrightarrow> [0..<n] = 0 # [1..<n]"
  by (simp add: upt_conv_Cons)

lemma print_log_empty:
  assumes "inputs s (nreads s) = 0"
  shows "print_log c s = (Inr (),
     s\<lparr>nreads := Suc (nreads s),
       trace := trace s @ [MmioWrite (MAILBOX_OFFSET c + MAILBOX_PY2IOP_CMD_OFFSET c) 1,
         MmioRead (MAILBOX_OFFSET c + 8) 0, PrintHeader]\<rparr>)"
  using assms
  by (simp add: print_log_def stop_log_def mmio_write_def mmio_read_def stdout_print_def Let_def)

lemma print_log_nonempty:
  assumes "inputs s (nreads s) \<noteq> 0"
  shows "print_log c s = (Inl AttributeError,
     s\<lparr>nreads := Suc (Suc (nreads s)),
       trace := trace s @ [MmioWrite (MAILBOX_OFFSET c + MAILBOX_PY2IOP_CMD_OFFSET c) 1,
         MmioRead (MAILBOX_OFFSET c + 8) (inputs s (nreads s)), PrintHeader,
         MmioRead (MAILBOX_OFFSET c + 12) (inputs s (Suc (nreads s)))]\<rparr>)"
proof -
  have p: "0 < uint (inputs s (nreads s))"
    using assms uint_0_iff [of "inputs s (nreads s)"] uint_ge_0 [of "inputs s (nreads s)"]
    by linarith
  have n: "0 < unat (inputs s (nreads s))"
    using assms by (simp add: unat_gt_0)
  show ?thesis
    unfolding print_log_def Let_def
    using p n by (simp add: stop_log_def mmio_write_def mmio_read_def stdout_print_def
      upt_nat_pos getattr_reg2float)
qed


lemma read_offsets_append: "read_offsets (es @ fs) = read_offsets es @ read_offsets fs"
  by (induction es rule: read_offsets.induct) simp_all

lemma printed_rows_append: "printed_rows (es @ fs) = printed_rows es @ printed_rows fs"
  by (induction es rule: printed_rows.induct) simp_all

text \<open>
  Claim C1, as amended. For every log-end-pointer value \<open>p\<close> read from mailbox offset
  \<open>+8\<close>, with \<open>count = 1000\<close> if \<open>p \<ge> 1000\<close> and \<open>count = p\<close> otherwise, the entries
  that \<open>print_log\<close> reads are at consecutive physical slots starting at slot 0 (byte
  offset \<open>+12\<close>, 4 bytes per slot), whatever \<open>p\<close> is; at most \<open>count\<close> entries are read,
  and at least one when \<open>count\<close> is positive. The end pointer does not move the start
  slot.
\<close>

theorem print_log_reads_from_slot_0:
  "\<exists>n. int n \<le> (if 1000 \<le> uint (inputs s (nreads s)) then 1000 else uint (inputs s (nreads s)))
     \<and> (0 < (if 1000 \<le> uint (inputs s (nreads s)) then 1000 else uint (inputs s (nreads s)))
          \<longrightarrow> 0 < n)
     \<and> read_offsets (trace (snd (print_log c s))) =
         read_offsets (trace s) @ (MAILBOX_OFFSET c + 8)
           # map (\<lambda>x. MAILBOX_OFFSET c + 12 + 4 * int x) [0..<n]"
proof (cases "inputs s (nreads s) = 0")
  case True
  from print_log_empty [OF this, of c] True show ?thesis
    by (intro exI [of _ 0]) (simp add: read_offsets_append)
next
  case False
  then have "0 < uint (inputs s (nreads s))"
    using uint_0_iff [of "inputs s (nreads s)"] uint_ge_0 [of "inputs s (nreads s)"]
    by linarith
  with print_log_nonempty [OF False, of c] show ?thesis
    by (intro exI [of _ 1]) (simp add: read_offsets_append)
qed

text \<open>With the end pointer 1200 the first entry read is slot 0, at offset \<open>0x700c\<close>.\<close>

theorem print_log_reads_from_slot_0_witness:
  "uint (inputs (fresh (env_const 1200)) (nreads (fresh (env_const 1200)))) = 1200
   \<and> (\<exists>n. int n \<le> 1000 \<and> 0 < n
     \<and> read_offsets (trace (snd (print_log c0 (fresh (env_const 1200))))) =
          0x7008 # map (\<lambda>x. 0x7000 + 12 + 4 * int x) [0..<n])"
proof -
  have v: "trace (fresh (env_const 1200)) = []"
    "uint (inputs (fresh (env_const 1200)) (nreads (fresh (env_const 1200)))) = 1200"
    by (simp_all add: fresh_def env_const_def)
  show ?thesis
    using print_log_reads_from_slot_0 [of "fresh (env_const 1200)" c0]
    by (simp add: v c0_def)
qed

text \<open>
  Claim C1 as stated fails for the end pointer 1200: the claim has the dump read 1000
  entries, the first from slot 200; \<open>print_log\<close> reads the end pointer and then slot 0.
\<close>

theorem print_log_wrapped_counterexample:
  "uint (inputs (fresh (env_const 1200)) (nreads (fresh (env_const 1200)))) = 1200
   \<and> read_offsets (trace (snd (print_log c0 (fresh (env_const 1200))))) =
        [MAILBOX_OFFSET c0 + 8, MAILBOX_OFFSET c0 + 12 + 4 * 0]
   \<and> hd (spec_log_offsets c0 1200) = MAILBOX_OFFSET c0 + 12 + 4 * 200
   \<and> length (spec_log_offsets c0 1200) = 1000
   \<and> tl (read_offsets (trace (snd (print_log c0 (fresh (env_const 1200)))))) \<noteq> spec_log_offsets c0 1200"
proof -
  have nz: "inputs (fresh (env_const 1200)) (nreads (fresh (env_const 1200))) \<noteq> 0"
    by (simp add: fresh_def env_const_def)
  have p: "uint (inputs (fresh (env_const 1200)) (nreads (fresh (env_const 1200)))) = 1200"
    by (simp add: fresh_def env_const_def)
  have r: "read_offsets (trace (snd (print_log c0 (fresh (env_const 1200))))) =
        [MAILBOX_OFFSET c0 + 8, MAILBOX_OFFSET c0 + 12 + 4 * 0]"
    unfolding print_log_nonempty [OF nz] by (simp add: fresh_def)
  have l: "length (spec_log_offsets c0 1200) = 1000"
    by (simp add: spec_log_offsets_def spec_log_slots_def)
  have h: "hd (spec_log_offsets c0 1200) = MAILBOX_OFFSET c0 + 12 + 4 * 200"
    by (simp add: spec_log_offsets_def spec_log_slots_def hd_map)
  have ne: "tl (read_offsets (trace (snd (print_log c0 (fresh (env_const 1200)))))) \<noteq> spec_log_offsets c0 1200"
  proof
    assume "tl (read_offsets (trace (snd (print_log c0 (fresh (env_const 1200)))))) = spec_log_offsets c0 1200"
    then have "length (tl (read_offsets (trace (snd (print_log c0 (fresh (env_const 1200))))))) = 1000"
      using l by simp
    then show False unfolding r by simp
  qed
  from p r h l ne show ?thesis by blast
qed

text \<open>
  Claim C2 fails on the code. For every mailbox state in which the computed entry count
  is at least 1, \<open>print_log\<close> reads the raw word of slot 0 and then raises
  \<open>AttributeError\<close>, since it calls \<open>self.reg2float\<close> and the decoder is named
  \<open>_reg2float\<close>: no pair is emitted.
\<close>

theorem print_log_raises_AttributeError:
  assumes "1 \<le> (if 1000 \<le> uint (inputs s (nreads s)) then 1000 else uint (inputs s (nreads s)))"
  shows "fst (print_log c s) = Inl AttributeError
    \<and> printed_rows (trace (snd (print_log c s))) = printed_rows (trace s)
    \<and> trace (snd (print_log c s)) =
        trace s @ [MmioWrite (MAILBOX_OFFSET c + MAILBOX_PY2IOP_CMD_OFFSET c) 1,
         MmioRead (MAILBOX_OFFSET c + 8) (inputs s (nreads s)), PrintHeader,
         MmioRead (MAILBOX_OFFSET c + 12) (inputs s (Suc (nreads s)))]"
proof -
  have "inputs s (nreads s) \<noteq> 0"
    using assms by (auto split: if_splits)
  from print_log_nonempty [OF this, of c] show ?thesis
    by (simp add: printed_rows_append)
qed

text \<open>A log holding a single entry.\<close>

theorem print_log_raises_AttributeError_witness:
  "(1 :: int) \<le> (if 1000 \<le> uint (inputs (fresh (env_const 1)) (nreads (fresh (env_const 1)))) then 1000
         else uint (inputs (fresh (env_const 1)) (nreads (fresh (env_const 1)))))
   \<and> fst (print_log c0 (fresh (env_const 1))) = Inl AttributeError
   \<and> trace (snd (print_log c0 (fresh (env_const 1)))) =
        [MmioWrite 0x7ffc 1, MmioRead 0x7008 1, PrintHeader, MmioRead 0x700c 1]
   \<and> printed_rows (trace (snd (print_log c0 (fresh (env_const 1))))) = []"
proof -
  have h: "(1 :: int) \<le> (if 1000 \<le> uint (inputs (fresh (env_const 1)) (nreads (fresh (env_const 1)))) then 1000
         else uint (inputs (fresh (env_const 1)) (nreads (fresh (env_const 1)))))"
    by (simp add: fresh_def env_const_def)
  have v: "trace (fresh (env_const 1)) = []" "inputs (fresh (env_const 1)) = env_const 1"
    "nreads (fresh (env_const 1)) = 0"
    by (simp_all add: fresh_def)
  show ?thesis
    using h print_log_raises_AttributeError [OF h, of c0]
    by (simp add: v c0_def env_const_def)
qed

section \<open>Properties of the immediate read\<close>

lemma poll_cmd_returns:
  assumes "\<forall>i<k. inputs s (nreads s + i) = 3" and "inputs s (nreads s + k) \<noteq> 3"
  shows "poll_cmd c s = Some (s\<lparr>nreads := nreads s + Suc k,
      trace := trace s @ replicate k (MmioRead (MAILBOX_OFFSET c + MAILBOX_PY2IOP_CMD_OFFSET c) 3)
        @ [MmioRead (MAILBOX_OFFSET c + MAILBOX_PY2IOP_CMD_OFFSET c) (inputs s (nreads s + k))]\<rparr>)"
  using assms
proof (induction k arbitrary: s)
  case 0
  then show ?case
    by (subst poll_cmd.simps) (simp add: mmio_read_def)
next
  case (Suc k)
  let ?cmd = "MAILBOX_OFFSET c + MAILBOX_PY2IOP_CMD_OFFSET c"
  let ?s1 = "snd (mmio_read ?cmd s)"
  have busy: "inputs s (nreads s) = 3" using Suc.prems(1) by force
  have s1: "?s1 = s\<lparr>nreads := Suc (nreads s), trace := trace s @ [MmioRead ?cmd 3]\<rparr>"
    by (simp add: mmio_read_def busy)
  have a: "\<forall>i<k. inputs ?s1 (nreads ?s1 + i) = 3"
    using Suc.prems(1) by (auto simp: s1)
  have b: "inputs ?s1 (nreads ?s1 + k) \<noteq> 3"
    using Suc.prems(2) by (simp add: s1)
  have "poll_cmd c s = poll_cmd c ?s1"
    by (subst poll_cmd.simps) (simp add: mmio_read_def busy)
  also note Suc.IH [OF a b]
  finally show ?case by (simp add: s1 replicate_app_Cons_same)
qed

lemma poll_cmd_Some_cleared:
  assumes "poll_cmd c s = Some s'"
  shows "\<exists>k. inputs s (nreads s + k) \<noteq> 3"
proof (rule poll_cmd.raw_induct
    [where P = "\<lambda>c s s'. \<exists>k. inputs s (nreads s + k) \<noteq> 3", OF _ assms])
  fix poll :: "pmod_const \<Rightarrow> tmp2 \<Rightarrow> tmp2 option" and c :: pmod_const and s s' :: tmp2
  let ?s1 = "snd (mmio_read (MAILBOX_OFFSET c + MAILBOX_PY2IOP_CMD_OFFSET c) s)"
  assume IH: "\<And>c s y. poll c s = Some y \<Longrightarrow> \<exists>k. inputs s (nreads s + k) \<noteq> 3"
    and step: "(if fst (mmio_read (MAILBOX_OFFSET c + MAILBOX_PY2IOP_CMD_OFFSET c) s) = 3
      then poll c ?s1 else Some ?s1) = Some s'"
  show "\<exists>k. inputs s (nreads s + k) \<noteq> 3"
  proof (cases "inputs s (nreads s) = 3")
    case True
    with step have "poll c ?s1 = Some s'"
      by (simp add: mmio_read_def)
    from IH [OF this] obtain k where "inputs s (Suc (nreads s) + k) \<noteq> 3"
      by (auto simp: mmio_read_def)
    then have "inputs s (nreads s + Suc k) \<noteq> 3" by simp
    then show ?thesis by blast
  next
    case False
    then have "inputs s (nreads s + 0) \<noteq> 3" by simp
    then show ?thesis by blast
  qed
qed

lemma poll_cmd_log_ms:
  assumes "poll_cmd c s = Some s'"
  shows "log_ms s' = log_ms s"
proof (rule poll_cmd.raw_induct [where P = "\<lambda>c s s'. log_ms s' = log_ms s", OF _ assms])
  fix poll :: "pmod_const \<Rightarrow> tmp2 \<Rightarrow> tmp2 option" and c :: pmod_const and s s' :: tmp2
  let ?s1 = "snd (mmio_read (MAILBOX_OFFSET c + MAILBOX_PY2IOP_CMD_OFFSET c) s)"
  assume IH: "\<And>c s y. poll c s = Some y \<Longrightarrow> log_ms y = log_ms s"
    and step: "(if fst (mmio_read (MAILBOX_OFFSET c + MAILBOX_PY2IOP_CMD_OFFSET c) s) = 3
      then poll c ?s1 else Some ?s1) = Some s'"
  have s1: "log_ms ?s1 = log_ms s" by (simp add: mmio_read_def)
  show "log_ms s' = log_ms s"
  proof (cases "fst (mmio_read (MAILBOX_OFFSET c + MAILBOX_PY2IOP_CMD_OFFSET c) s) = 3")
    case True
    with step have "poll c ?s1 = Some s'" by simp
    from IH [OF this] s1 show ?thesis by simp
  next
    case False
    with step s1 show ?thesis by auto
  qed
qed

lemma read_returns:
  assumes "\<forall>i<k. inputs s (nreads s + i) = 3" and "inputs s (nreads s + k) \<noteq> 3"
  shows "read c s = Some (reg2float (inputs s (nreads s + Suc k)),
        s\<lparr>last_value := Some (inputs s (nreads s + Suc k)),
          nreads := nreads s + k + 2,
          trace := trace s @ MmioWrite (MAILBOX_OFFSET c + MAILBOX_PY2IOP_CMD_OFFSET c) 3
            # replicate k (MmioRead (MAILBOX_OFFSET c + MAILBOX_PY2IOP_CMD_OFFSET c) 3)
            @ [MmioRead (MAILBOX_OFFSET c + MAILBOX_PY2IOP_CMD_OFFSET c) (inputs s (nreads s + k)),
               MmioRead (MAILBOX_OFFSET c) (inputs s (nreads s + Suc k))]\<rparr>)"
proof -
  let ?cmd = "MAILBOX_OFFSET c + MAILBOX_PY2IOP_CMD_OFFSET c"
  let ?s0 = "mmio_write ?cmd 3 s"
  have a: "\<forall>i<k. inputs ?s0 (nreads ?s0 + i) = 3" "inputs ?s0 (nreads ?s0 + k) \<noteq> 3"
    using assms by (simp_all add: mmio_write_def)
  show ?thesis
    unfolding read_def poll_cmd_returns [OF a]
    by (simp add: mmio_write_def mmio_read_def)
qed

lemma read_diverges:
  assumes "\<forall>k. inputs s (nreads s + k) = 3"
  shows "read c s = None"
proof (cases "poll_cmd c (mmio_write (MAILBOX_OFFSET c + MAILBOX_PY2IOP_CMD_OFFSET c) 3 s)")
  case None
  then show ?thesis by (simp add: read_def)
next
  case (Some s1)
  from poll_cmd_Some_cleared [OF this] assms show ?thesis
    by (simp add: mmio_write_def)
qed

lemma read_log_ms: "read c s = Some (v, s') \<Longrightarrow> log_ms s' = log_ms s"
  by (auto simp: read_def mmio_read_def mmio_write_def split: option.splits dest!: poll_cmd_log_ms)

lemma replicate_2: "replicate 2 x = [x, x]"
  by (simp add: numeral_2_eq_2)

text \<open>
  The product that the source computes is the product of the fields as the specification
  reads them, and the returned value is that product rounded to tenths, ties to even.
\<close>

lemma py_pow2_powi: "py_pow2 e = 2 powi e"
proof (cases "0 \<le> e")
  case True
  then show ?thesis by (simp only: py_pow2_def power_int_def if_True)
next
  case False
  have "inverse (2 :: rat) ^ nat (- e) = 1 / 2 ^ nat (- e)"
    by (simp only: inverse_eq_divide power_one_over)
  with False show ?thesis by (simp only: py_pow2_def power_int_def if_False)
qed

lemma reg_result_spec_product: "reg_result reg = spec_product reg"
  by (simp add: reg_result_def spec_product_def py_pow2_powi reg_exp_field reg_man_def
      man_field reg_sign_bit)

lemma reg2float_spec_char:
  "\<exists>n :: int. reg2float reg = of_int n / 10
     \<and> \<bar>reg2float reg - spec_product reg\<bar> \<le> 1 / 20
     \<and> (\<bar>reg2float reg - spec_product reg\<bar> = 1 / 20 \<longrightarrow> even n)"
proof (cases "reg = 0")
  case True
  have "reg2float reg = of_int 0 / 10" "\<bar>reg2float reg - reg_result reg\<bar> < 1 / 20"
    using True by (simp_all add: reg2float_def reg_result_zero)
  then show ?thesis
    unfolding reg_result_spec_product by (intro exI [of _ 0]) simp
next
  case False
  obtain n :: int where n: "format_1f (spec_product reg) = of_int n / 10"
    "\<bar>of_int n - 10 * spec_product reg\<bar> \<le> 1 / 2"
    "\<bar>of_int n - 10 * spec_product reg\<bar> = 1 / 2 \<longrightarrow> even n"
    using format_1f_char [of "spec_product reg"] by blast
  have r: "reg2float reg = of_int n / 10"
    using False by (simp add: reg2float_def reg_result_spec_product n(1))
  have d: "\<bar>of_int n - 10 * spec_product reg\<bar> = 10 * \<bar>reg2float reg - spec_product reg\<bar>"
    by (simp add: r abs_if)
  show ?thesis
    using r n d by (intro exI [of _ n]) simp
qed

text \<open>
  Claim C5, as amended. \<open>read\<close> first writes opcode 3 to the command cell, then reads
  the command cell repeatedly. If some read of the command cell returns a value other
  than 3, the call returns; when the first such read is the \<open>k\<close>-th (counting from 0),
  the call has written opcode 3, polled \<open>k + 1\<close> times, read the data cell at mailbox
  offset \<open>+0\<close> once, and returns the decoding of that word: a whole number \<open>n\<close> of
  tenths within \<open>0.05\<close> of the product
  \<open>2^(bits[30:23] - 127) * significand * (-1 if the sign bit is set else +1)\<close> of the
  data word, with \<open>n\<close> even where the distance is exactly \<open>0.05\<close> (a tie goes to the
  even digit, and the word 0 decodes to \<open>0.0\<close>). If every read of the command cell
  returns 3, the call never returns. The claim as stated has the value rounded as section
  4.6 words it, a tie going away from zero.
\<close>

theorem read_polls_until_cleared:
  "((\<exists>j. inputs s (nreads s + j) \<noteq> 3) \<longrightarrow> read c s \<noteq> None)
 \<and> ((\<forall>i<k. inputs s (nreads s + i) = 3) \<and> inputs s (nreads s + k) \<noteq> 3 \<longrightarrow>
     read c s = Some (reg2float (inputs s (nreads s + Suc k)),
        s\<lparr>last_value := Some (inputs s (nreads s + Suc k)),
          nreads := nreads s + k + 2,
          trace := trace s @ MmioWrite (MAILBOX_OFFSET c + MAILBOX_PY2IOP_CMD_OFFSET c) 3
            # replicate k (MmioRead (MAILBOX_OFFSET c + MAILBOX_PY2IOP_CMD_OFFSET c) 3)
            @ [MmioRead (MAILBOX_OFFSET c + MAILBOX_PY2IOP_CMD_OFFSET c) (inputs s (nreads s + k)),
               MmioRead (MAILBOX_OFFSET c) (inputs s (nreads s + Suc k))]\<rparr>)
     \<and> (\<exists>n :: int. reg2float (inputs s (nreads s + Suc k)) = of_int n / 10
          \<and> \<bar>reg2float (inputs s (nreads s + Suc k))
               - spec_product (inputs s (nreads s + Suc k))\<bar> \<le> 1 / 20
          \<and> (\<bar>reg2float (inputs s (nreads s + Suc k))
               - spec_product (inputs s (nreads s + Suc k))\<bar> = 1 / 20 \<longrightarrow> even n)))
 \<and> ((\<forall>j. inputs s (nreads s + j) = 3) \<longrightarrow> read c s = None)"
proof (intro conjI impI)
  assume "\<exists>j. inputs s (nreads s + j) \<noteq> 3"
  then obtain j where j: "inputs s (nreads s + j) \<noteq> 3"
    and least: "\<forall>i<j. inputs s (nreads s + i) = 3"
    using exists_least_iff [of "\<lambda>j. inputs s (nreads s + j) \<noteq> 3"] by auto
  from read_returns [OF least j] show "read c s \<noteq> None" by simp
next
  assume "(\<forall>i<k. inputs s (nreads s + i) = 3) \<and> inputs s (nreads s + k) \<noteq> 3"
  then show "read c s = Some (reg2float (inputs s (nreads s + Suc k)),
        s\<lparr>last_value := Some (inputs s (nreads s + Suc k)),
          nreads := nreads s + k + 2,
          trace := trace s @ MmioWrite (MAILBOX_OFFSET c + MAILBOX_PY2IOP_CMD_OFFSET c) 3
            # replicate k (MmioRead (MAILBOX_OFFSET c + MAILBOX_PY2IOP_CMD_OFFSET c) 3)
            @ [MmioRead (MAILBOX_OFFSET c + MAILBOX_PY2IOP_CMD_OFFSET c) (inputs s (nreads s + k)),
               MmioRead (MAILBOX_OFFSET c) (inputs s (nreads s + Suc k))]\<rparr>)"
    using read_returns by blast
next
  show "\<exists>n :: int. reg2float (inputs s (nreads s + Suc k)) = of_int n / 10
          \<and> \<bar>reg2float (inputs s (nreads s + Suc k))
               - spec_product (inputs s (nreads s + Suc k))\<bar> \<le> 1 / 20
          \<and> (\<bar>reg2float (inputs s (nreads s + Suc k))
               - spec_product (inputs s (nreads s + Suc k))\<bar> = 1 / 20 \<longrightarrow> even n)"
    by (rule reg2float_spec_char)
next
  assume "\<forall>j. inputs s (nreads s + j) = 3"
  then show "read c s = None" by (rule read_diverges)
qed

text \<open>
  A co-processor that clears the command cell at the third poll and holds \<open>0.25\<close> in
  the data cell, a tie between \<open>0.2\<close> and \<open>0.3\<close>; and one that never clears it.
\<close>

theorem read_polls_until_cleared_witness:
  "inputs (fresh (env_busy 2 0x3E800000)) (nreads (fresh (env_busy 2 0x3E800000)) + 0) = 3
   \<and> inputs (fresh (env_busy 2 0x3E800000)) (nreads (fresh (env_busy 2 0x3E800000)) + 1) = 3
   \<and> inputs (fresh (env_busy 2 0x3E800000)) (nreads (fresh (env_busy 2 0x3E800000)) + 2) \<noteq> 3
   \<and> (\<exists>j. inputs (fresh (env_busy 2 0x3E800000)) (nreads (fresh (env_busy 2 0x3E800000)) + j) \<noteq> 3)
   \<and> read c0 (fresh (env_busy 2 0x3E800000)) \<noteq> None
   \<and> fst (the (read c0 (fresh (env_busy 2 0x3E800000)))) = 1 / 5
   \<and> trace (snd (the (read c0 (fresh (env_busy 2 0x3E800000))))) =
       [MmioWrite 0x7ffc 3, MmioRead 0x7ffc 3, MmioRead 0x7ffc 3, MmioRead 0x7ffc 0x3E800000,
        MmioRead 0x7000 0x3E800000]
   \<and> spec_product 0x3E800000 = 1 / 4
   \<and> \<bar>fst (the (read c0 (fresh (env_busy 2 0x3E800000)))) - spec_product 0x3E800000\<bar> = 1 / 20
   \<and> (\<exists>n :: int. fst (the (read c0 (fresh (env_busy 2 0x3E800000)))) = of_int n / 10 \<and> even n)
   \<and> (\<forall>j. inputs (fresh (env_const 3)) (nreads (fresh (env_const 3)) + j) = 3)
   \<and> read c0 (fresh (env_const 3)) = None"
proof -
  let ?S = "fresh (env_busy 2 0x3E800000)"
  have t: "reg2float 0x3E800000 = 1 / 5" by code_simp
  have sp: "spec_product 0x3E800000 = 1 / 4" by code_simp
  have a: "\<forall>i<2. inputs ?S (nreads ?S + i) = 3"
    by (simp add: fresh_def env_busy_def)
  have b: "inputs ?S (nreads ?S + 2) \<noteq> 3"
    by (simp add: fresh_def env_busy_def)
  have e: "\<exists>j. inputs ?S (nreads ?S + j) \<noteq> 3"
    using b by blast
  have d: "\<forall>j. inputs (fresh (env_const 3)) (nreads (fresh (env_const 3)) + j) = 3"
    by (simp add: fresh_def env_const_def)
  have v: "inputs ?S (nreads ?S + Suc 2) = 0x3E800000"
    by (simp add: fresh_def env_busy_def)
  have r: "read c0 (fresh (env_const 3)) = None"
    using read_polls_until_cleared [where s = "fresh (env_const 3)" and c = c0] d by blast
  have q: "read c0 ?S \<noteq> None"
    using read_polls_until_cleared [where s = ?S and c = c0] e by blast
  note inst = read_polls_until_cleared [where s = ?S and k = 2 and c = c0]
  have p0: "read c0 ?S = Some (reg2float (inputs ?S (nreads ?S + Suc 2)),
        ?S\<lparr>last_value := Some (inputs ?S (nreads ?S + Suc 2)),
          nreads := nreads ?S + 2 + 2,
          trace := trace ?S @ MmioWrite (MAILBOX_OFFSET c0 + MAILBOX_PY2IOP_CMD_OFFSET c0) 3
            # replicate 2 (MmioRead (MAILBOX_OFFSET c0 + MAILBOX_PY2IOP_CMD_OFFSET c0) 3)
            @ [MmioRead (MAILBOX_OFFSET c0 + MAILBOX_PY2IOP_CMD_OFFSET c0) (inputs ?S (nreads ?S + 2)),
               MmioRead (MAILBOX_OFFSET c0) (inputs ?S (nreads ?S + Suc 2))]\<rparr>)"
    using inst a b by blast
  have p: "fst (the (read c0 ?S)) = 1 / 5
   \<and> trace (snd (the (read c0 ?S))) =
       [MmioWrite 0x7ffc 3, MmioRead 0x7ffc 3, MmioRead 0x7ffc 3, MmioRead 0x7ffc 0x3E800000,
        MmioRead 0x7000 0x3E800000]"
    unfolding p0 by (simp add: fresh_def env_busy_def t c0_def replicate_2)
  have f: "fst (the (read c0 ?S)) = reg2float 0x3E800000"
    using p t by simp
  have tie: "\<bar>fst (the (read c0 ?S)) - spec_product 0x3E800000\<bar> = 1 / 20"
    using p by (simp add: sp)
  have "\<exists>n :: int. reg2float 0x3E800000 = of_int n / 10
          \<and> \<bar>reg2float 0x3E800000 - spec_product 0x3E800000\<bar> \<le> 1 / 20
          \<and> (\<bar>reg2float 0x3E800000 - spec_product 0x3E800000\<bar> = 1 / 20 \<longrightarrow> even n)"
    using inst a b unfolding v by blast
  then have ev: "\<exists>n :: int. fst (the (read c0 ?S)) = of_int n / 10 \<and> even n"
    using tie unfolding f by blast
  have a0: "inputs ?S (nreads ?S + 0) = 3" "inputs ?S (nreads ?S + 1) = 3"
    by (simp_all add: fresh_def env_busy_def)
  from a0 b e d r q p sp tie ev show ?thesis by blast
qed

text \<open>
  Claim C5 as stated fails with that data cell: the decoding of section 4.6 as the
  specification words it gives \<open>0.3\<close>, and \<open>read\<close> returns \<open>0.2\<close>. The
  register has the biased exponent 125, so the significand is \<open>1 + 0\<close> on either
  reading of the branch.
\<close>

theorem read_half_away_counterexample:
  "map_option fst (read c0 (fresh (env_busy 2 0x3E800000))) = Some (1 / 5)
   \<and> spec_decode 0x3E800000 = 3 / 10
   \<and> map_option fst (read c0 (fresh (env_busy 2 0x3E800000))) \<noteq> Some (spec_decode 0x3E800000)"
proof -
  let ?S = "fresh (env_busy 2 0x3E800000)"
  have a: "\<forall>i<2. inputs ?S (nreads ?S + i) = 3" "inputs ?S (nreads ?S + 2) \<noteq> 3"
    by (simp_all add: fresh_def env_busy_def)
  have v: "inputs ?S (nreads ?S + Suc 2) = 0x3E800000"
    by (simp add: fresh_def env_busy_def)
  have t: "reg2float 0x3E800000 = 1 / 5" by code_simp
  have d: "spec_decode 0x3E800000 = 3 / 10" by code_simp
  have r: "map_option fst (read c0 ?S) = Some (1 / 5)"
    unfolding read_returns [OF a, of c0] v by (simp add: t)
  have ne: "map_option fst (read c0 ?S) \<noteq> Some (spec_decode 0x3E800000)"
    unfolding r d by simp
  from r d ne show ?thesis by (intro conjI)
qed

section \<open>The invariant of the log duration\<close>

lemma print_log_log_ms: "log_ms (snd (print_log c s)) = log_ms s"
proof (cases "inputs s (nreads s) = 0")
  case True
  from print_log_empty [OF this, of c] show ?thesis by simp
next
  case False
  from print_log_nonempty [OF this, of c] show ?thesis by simp
qed

text \<open>
  Claim C8. The stored log duration \<open>log_ms\<close> is never negative: it is 0 after
  construction, and each operation of the driver (\<open>read\<close> when it returns,
  \<open>set_log_ms\<close> and \<open>start_log\<close> whether they succeed or raise, \<open>stop_log\<close>,
  \<open>print_log\<close>) leaves \<open>log_ms \<ge> 0\<close> when it holds before.
\<close>

theorem log_ms_never_negative:
  "(TMP2_init req env = Inr s0 \<longrightarrow> log_ms s0 = 0)
   \<and> (0 \<le> log_ms s \<longrightarrow>
        (\<forall>v s'. read c s = Some (v, s') \<longrightarrow> 0 \<le> log_ms s')
      \<and> 0 \<le> log_ms (snd (set_log_ms c ms s))
      \<and> 0 \<le> log_ms (snd (start_log c ms s))
      \<and> 0 \<le> log_ms (stop_log c s)
      \<and> 0 \<le> log_ms (snd (print_log c s)))"
proof -
  have i: "log_ms s0 = 0" if "TMP2_init req env = Inr s0"
    using that by (auto simp: TMP2_init_def split: sum.splits)
  have r: "\<forall>v s'. read c s = Some (v, s') \<longrightarrow> 0 \<le> log_ms s'" if "0 \<le> log_ms s"
    using that by (auto dest: read_log_ms)
  have l: "0 \<le> log_ms (snd (set_log_ms c ms s))" if "0 \<le> log_ms s"
    using that by (simp add: set_log_ms_def mmio_write_def)
  have a: "0 \<le> log_ms (snd (start_log c ms s))" if "0 \<le> log_ms s"
    using that by (simp add: start_log_def set_log_ms_def mmio_write_def)
  have o: "0 \<le> log_ms (stop_log c s)" if "0 \<le> log_ms s"
    using that by (simp add: stop_log_def mmio_write_def)
  have p: "0 \<le> log_ms (snd (print_log c s))" if "0 \<le> log_ms s"
    using that by (simp add: print_log_log_ms)
  from i r l a o p show ?thesis by blast
qed

theorem log_ms_never_negative_witness:
  "TMP2_init (Inr ()) (env_busy 2 0x41C80000) = Inr (fresh (env_busy 2 0x41C80000))
   \<and> log_ms (fresh (env_busy 2 0x41C80000)) = 0
   \<and> (\<exists>v s'. read c0 (fresh (env_busy 2 0x41C80000)) = Some (v, s') \<and> 0 \<le> log_ms s')
   \<and> log_ms (snd (set_log_ms c0 250 (fresh (env_busy 2 0x41C80000)))) = 250
   \<and> 0 \<le> log_ms (snd (set_log_ms c0 250 (fresh (env_busy 2 0x41C80000))))
   \<and> 0 \<le> log_ms (snd (set_log_ms c0 (- 1) (fresh (env_busy 2 0x41C80000))))
   \<and> 0 \<le> log_ms (snd (start_log c0 (- 1) (fresh (env_busy 2 0x41C80000))))
   \<and> 0 \<le> log_ms (stop_log c0 (fresh (env_busy 2 0x41C80000)))
   \<and> 0 \<le> log_ms (snd (print_log c0 (fresh (env_busy 2 0x41C80000))))"
proof -
  let ?S = "fresh (env_busy 2 0x41C80000)"
  have i: "TMP2_init (Inr ()) (env_busy 2 0x41C80000) = Inr ?S"
    by (simp add: TMP2_init_def fresh_def)
  have z: "0 \<le> log_ms ?S" "log_ms ?S = 0" by (simp_all add: fresh_def)
  have a: "\<forall>i<2. inputs ?S (nreads ?S + i) = 3" "inputs ?S (nreads ?S + 2) \<noteq> 3"
    by (simp_all add: fresh_def env_busy_def)
  obtain v s' where rd: "read c0 ?S = Some (v, s')"
    using read_returns [OF a, of c0] by blast
  have s: "log_ms (snd (set_log_ms c0 250 ?S)) = 250"
    by (simp add: set_log_ms_def mmio_write_def)
  note inv = log_ms_never_negative [where s = ?S and c = c0]
  have "0 \<le> log_ms s'" using inv z(1) rd by blast
  with rd have r: "\<exists>v s'. read c0 ?S = Some (v, s') \<and> 0 \<le> log_ms s'" by blast
  from i z s r inv [where ms = 250] inv [where ms = "- 1"]
    log_ms_never_negative [where req = "Inr ()" and env = "env_busy 2 0x41C80000" and ?s0.0 = ?S]
  show ?thesis by blast
qed

end
